theory Spec2Isabelle
  imports Complex_Main "HOL-Library.Log_Nat"
begin

section \<open>Data model of the cafeteria session\<close>

text \<open>
  The program keeps four values in the session state: the menu table, the orders table,
  the order id counter and the cart. A row of the menu table (columns
  \<^verbatim>\<open>Item ID\<close>, \<^verbatim>\<open>Name\<close>, \<^verbatim>\<open>Category\<close>, \<^verbatim>\<open>Price\<close>, \<^verbatim>\<open>Available\<close>)
  is a \<open>menu_item\<close>; a cart entry (the dictionary with keys \<^verbatim>\<open>Item ID\<close>,
  \<^verbatim>\<open>Name\<close>, \<^verbatim>\<open>Price\<close>, \<^verbatim>\<open>Quantity\<close>, \<^verbatim>\<open>Subtotal\<close>) is a \<open>cart_line\<close>;
  a row of the orders table is an \<open>order\<close>. Tables are lists of rows in table order.

  Prices, subtotals and totals are float64 values in the program. A finite float64 is
  represented by the real number it denotes, and every arithmetic operation of the
  program on such values is modelled with its rounding (section on binary64
  arithmetic below). Quantities are Python integers.
\<close>

record menu_item =
  item_id :: int
  name :: string
  category :: string
  price :: real
  available :: bool

record cart_line =
  line_item_id :: int
  line_name :: string
  line_price :: real
  quantity :: int
  subtotal :: real

text \<open>
  The status column holds one of the five strings offered by the status select box;
  a new order is written with \<^verbatim>\<open>'Pending'\<close>.
\<close>

datatype order_status = Pending | Preparing | Ready | Completed | Cancelled

record order =
  order_id :: int
  timestamp :: string
  items :: "cart_line list"
  total_amount :: real
  status :: order_status
  instructions :: string
  pickup_time :: string

record session =
  menu_items :: "menu_item list"
  orders :: "order list"
  order_id_counter :: int
  cart :: "cart_line list"

text \<open>
  What a handler reports instead of changing the state: the three messages the program
  shows (empty cart, duplicate item ids, unknown order id), and the \<open>IndexError\<close> that
  Python raises when a position does not exist.
\<close>

datatype error = EmptyCart | DuplicateId | OrderNotFound | IndexError

section \<open>Binary64 arithmetic\<close>

text \<open>
  An operation on float64 values returns the exact result rounded to the nearest
  number with a 53-bit significand, ties going to the even significand. \<open>binade x\<close>
  is the exponent \<open>e\<close> for which \<open>|x|\<close> lies between \<open>2 powi e\<close> (included) and
  \<open>2 powi (e + 1)\<close> (excluded), so that the representable numbers around \<open>x\<close> are
  the multiples of \<open>2 powi (e - 52)\<close>. The exponent is not bounded here: overflow to
  infinity, subnormal numbers and NaN are outside the model.
\<close>

definition binade :: "real \<Rightarrow> int" where
  "binade x =
     (if 1 \<le> \<bar>x\<bar> then bitlen \<lfloor>\<bar>x\<bar>\<rfloor> - 1
      else - bitlen (\<lceil>1 / \<bar>x\<bar>\<rceil> - 1))"

definition round_half_even :: "real \<Rightarrow> int" where
  "round_half_even x =
     (let n = \<lfloor>x\<rfloor>; r = x - of_int n
      in if r < 1 / 2 then n
         else if r > 1 / 2 then n + 1
         else if even n then n else n + 1)"

definition float64 :: "real \<Rightarrow> real" where
  "float64 x =
     (if x = 0 then 0
      else (let ulp = 2 powi (binade x - 52)
            in of_int (round_half_even (x / ulp)) * ulp))"

text \<open>
  Sum, difference and product of two floats; a Python integer that meets a float in a
  product is converted to a float first; a decimal literal of the program text is the
  float nearest to it.
\<close>

definition fl_add :: "real \<Rightarrow> real \<Rightarrow> real" where
  "fl_add x y = float64 (x + y)"

definition fl_sub :: "real \<Rightarrow> real \<Rightarrow> real" where
  "fl_sub x y = float64 (x - y)"

definition fl_mul :: "real \<Rightarrow> real \<Rightarrow> real" where
  "fl_mul x y = float64 (x * y)"

definition float_of_int :: "int \<Rightarrow> real" where
  "float_of_int n = float64 (real_of_int n)"

text \<open>
  The sum of a float column is numpy's pairwise summation: fewer than eight entries
  are added in order; up to 128 entries are added into eight running sums, entry
  \<open>i\<close> into sum \<open>i mod 8\<close>, which are then combined as a balanced tree and followed
  by the entries left over; a longer column is split in two at a multiple of eight
  and the sums of the halves are added. The reduction starts from 0.
\<close>

fun sum_loop :: "real \<Rightarrow> real list \<Rightarrow> real" where
  "sum_loop res [] = res"
| "sum_loop res (a # as) = sum_loop (fl_add res a) as"

function accumulate8 :: "real list \<Rightarrow> real list \<Rightarrow> real list \<times> real list" where
  "accumulate8 r as =
     (if 8 \<le> length as
      then accumulate8 (map2 fl_add r (take 8 as)) (drop 8 as)
      else (r, as))"
  by pat_completeness auto
termination
  by (relation "measure (\<lambda>(r, as). length as)") auto

definition block_sum :: "real list \<Rightarrow> real" where
  "block_sum as =
     (case accumulate8 (take 8 as) (drop 8 as) of
        (r, rest) \<Rightarrow>
          sum_loop (fl_add (fl_add (fl_add (r ! 0) (r ! 1)) (fl_add (r ! 2) (r ! 3)))
                           (fl_add (fl_add (r ! 4) (r ! 5)) (fl_add (r ! 6) (r ! 7))))
                   rest)"

function pairwise_sum :: "real list \<Rightarrow> real" where
  "pairwise_sum as =
     (if length as < 8 then sum_loop 0 as
      else if length as \<le> 128 then block_sum as
      else fl_add (pairwise_sum (take (length as div 2 - length as div 2 mod 8) as))
                  (pairwise_sum (drop (length as div 2 - length as div 2 mod 8) as)))"
  by pat_completeness auto
termination
  by (relation "measure length") auto

definition float_column_sum :: "real list \<Rightarrow> real" where
  "float_column_sum as = fl_add 0 (pairwise_sum as)"

section \<open>Helper functions\<close>

text \<open>\<^verbatim>\<open>initialize_data\<close> on a fresh session: every key is missing and gets its sample value.\<close>

definition initialize_data :: session where
  "initialize_data =
     \<lparr> menu_items =
         [ \<lparr> item_id = 1, name = ''Coffee'', category = ''Beverage'', price = 50, available = True \<rparr>,
           \<lparr> item_id = 2, name = ''Tea'', category = ''Beverage'', price = 40, available = True \<rparr>,
           \<lparr> item_id = 3, name = ''Sandwich'', category = ''Snack'', price = 120, available = True \<rparr>,
           \<lparr> item_id = 4, name = ''Salad'', category = ''Meal'', price = 150, available = True \<rparr>,
           \<lparr> item_id = 5, name = ''Pizza Slice'', category = ''Meal'', price = 100, available = True \<rparr>,
           \<lparr> item_id = 6, name = ''Burger'', category = ''Meal'', price = 180, available = False \<rparr>,
           \<lparr> item_id = 7, name = ''Fries'', category = ''Side'', price = 70, available = True \<rparr>,
           \<lparr> item_id = 8, name = ''Juice'', category = ''Beverage'', price = 60, available = True \<rparr> ],
       orders = [],
       order_id_counter = 1,
       cart = [] \<rparr>"

definition get_available_menu :: "session \<Rightarrow> menu_item list" where
  "get_available_menu s = filter (\<lambda>m. available m = True) (menu_items s)"

text \<open>
  Python's \<^verbatim>\<open>sum\<close> over a generator: an accumulator that starts at zero and takes
  the entries in order. It is used on the quantities, which are integers.
\<close>

fun sum_from :: "'a::monoid_add \<Rightarrow> 'a list \<Rightarrow> 'a" where
  "sum_from acc [] = acc"
| "sum_from acc (x # xs) = sum_from (acc + x) xs"

definition column_sum :: "'a::monoid_add list \<Rightarrow> 'a" where
  "column_sum xs = sum_from 0 xs"

definition calculate_total_savings :: "cart_line list \<Rightarrow> real" where
  "calculate_total_savings cart_df =
     (let total_amount = float_column_sum (map subtotal cart_df) in
      if total_amount > 500 then fl_mul total_amount (float64 0.10)
      else if length cart_df \<ge> 3 then fl_mul total_amount (float64 0.05)
      else 0)"

definition get_estimated_time :: "session \<Rightarrow> int" where
  "get_estimated_time s =
     (let base_time = 10;
          items_count = column_sum (map quantity (cart s))
      in base_time + (items_count * 2))"

section \<open>The order summary of the menu page\<close>


definition final_amount :: "cart_line list \<Rightarrow> real" where
  "final_amount cart_df =
     (let total_amount = float_column_sum (map subtotal cart_df);
          discount = calculate_total_savings cart_df
      in fl_sub total_amount discount)"

section \<open>Handlers\<close>

text \<open>
  Add to Cart. The select box returns a name; an empty selection is falsy and nothing
  happens. Otherwise the rows of the available menu with that name are taken and the
  first of them (\<^verbatim>\<open>.iloc[0]\<close>, which raises on an empty selection) is copied into
  a new cart entry appended at the end.
\<close>

definition add_to_cart :: "session \<Rightarrow> string \<Rightarrow> int \<Rightarrow> error + session" where
  "add_to_cart s selected_item_name qty =
     (if selected_item_name = [] then Inr s
      else
        (case filter (\<lambda>m. name m = selected_item_name) (get_available_menu s) of
           [] \<Rightarrow> Inl IndexError
         | item_details # _ \<Rightarrow>
             Inr (s\<lparr> cart := cart s @
               [ \<lparr> line_item_id = item_id item_details,
                   line_name = selected_item_name,
                   line_price = price item_details,
                   quantity = qty,
                   subtotal = fl_mul (price item_details) (float_of_int qty) \<rparr> ] \<rparr>)))"

text \<open>
  The quantity box of cart row \<open>idx\<close>. The page draws one box per cart row, so a
  position outside the cart has no box; it is modelled as the \<open>IndexError\<close> that
  \<^verbatim>\<open>cart[idx]\<close> raises. A changed quantity is written into the entry together with
  the recomputed subtotal, from the price read off the cart row.
\<close>

definition quantity_edit :: "session \<Rightarrow> nat \<Rightarrow> int \<Rightarrow> error + session" where
  "quantity_edit s idx new_qty =
     (if idx < length (cart s) then
        (let item = cart s ! idx in
         if new_qty \<noteq> quantity item then
           Inr (s\<lparr> cart := (cart s)[idx :=
                  (cart s ! idx)\<lparr> quantity := new_qty,
                                 subtotal := fl_mul (float_of_int new_qty) (line_price item) \<rparr>] \<rparr>)
         else Inr s)
      else Inl IndexError)"

text \<open>The remove button of cart row \<open>idx\<close>: \<^verbatim>\<open>cart.pop(idx)\<close>.\<close>

definition remove_line :: "session \<Rightarrow> nat \<Rightarrow> error + session" where
  "remove_line s idx =
     (if idx < length (cart s) then
        Inr (s\<lparr> cart := take idx (cart s) @ drop (Suc idx) (cart s) \<rparr>)
      else Inl IndexError)"

text \<open>
  Place Order, with the clock reading and the two order preferences as inputs. The
  order's items are the records of the cart table and its total is the final amount of
  the order summary. The cart table of the page is built from the cart earlier in the
  same run; an edit or a removal in between restarts the script, so at the button the
  table holds the lines of the cart. Building the table and taking its records copies
  the values of the lines: the order shares nothing with the cart, which is replaced
  by a new empty list.
\<close>

definition place_order :: "session \<Rightarrow> string \<Rightarrow> string \<Rightarrow> string \<Rightarrow> error + session" where
  "place_order s now special_instructions preferred_time =
     (if cart s \<noteq> [] then
        (let oid = order_id_counter s;
             items_ordered = cart s;
             new_order = \<lparr> order_id = oid,
                           timestamp = now,
                           items = items_ordered,
                           total_amount = final_amount (cart s),
                           status = Pending,
                           instructions = special_instructions,
                           pickup_time = preferred_time \<rparr>
         in Inr (s\<lparr> orders := orders s @ [new_order],
                    order_id_counter := order_id_counter s + 1,
                    cart := [] \<rparr>))
      else Inl EmptyCart)"

text \<open>
  Update Status: the positions of the rows whose id equals the selected id; if there
  are none the error is shown, otherwise the status of each of them is overwritten.
\<close>

definition order_index :: "order list \<Rightarrow> int \<Rightarrow> nat list" where
  "order_index os selected = filter (\<lambda>i. order_id (os ! i) = selected) [0..<length os]"

fun set_status_at :: "nat list \<Rightarrow> order_status \<Rightarrow> order list \<Rightarrow> order list" where
  "set_status_at [] new_status os = os"
| "set_status_at (i # is) new_status os =
     set_status_at is new_status (os[i := (os ! i)\<lparr> status := new_status \<rparr>])"

definition update_status :: "session \<Rightarrow> int \<Rightarrow> order_status \<Rightarrow> error + session" where
  "update_status s selected_order_id_update new_status =
     (let idxs = order_index (orders s) selected_order_id_update in
      if idxs \<noteq> [] then
        Inr (s\<lparr> orders := set_status_at idxs new_status (orders s) \<rparr>)
      else Inl OrderNotFound)"

text \<open>
  Save Menu Changes. \<^verbatim>\<open>duplicated()\<close> marks every entry of the id column that
  occurred at an earlier position; \<^verbatim>\<open>any()\<close> asks whether some entry is marked.
\<close>

fun duplicated_from :: "'a list \<Rightarrow> 'a list \<Rightarrow> bool list" where
  "duplicated_from seen [] = []"
| "duplicated_from seen (x # xs) = (x \<in> set seen) # duplicated_from (x # seen) xs"

definition duplicated :: "'a list \<Rightarrow> bool list" where
  "duplicated xs = duplicated_from [] xs"

definition any_true :: "bool list \<Rightarrow> bool" where
  "any_true bs = list_ex (\<lambda>b. b) bs"

definition save_menu_changes :: "session \<Rightarrow> menu_item list \<Rightarrow> error + session" where
  "save_menu_changes s edited_df =
     (if any_true (duplicated (map item_id edited_df)) then Inl DuplicateId
      else Inr (s\<lparr> menu_items := edited_df \<rparr>))"

section \<open>The session as a transition system\<close>

text \<open>
  One user action per run of the script. A handler that reports an error leaves the
  session state as it was. The guards are those of the page: the order form and the
  cart are drawn only while some menu item is available, the cart rows and the Place
  Order button only while the cart is non-empty, and the status form only while the
  orders table is non-empty. The inputs are as free as their types: a quantity box of
  the page yields integers from 1 on and a select box one of its options, so the runs
  of the model contain those of the program.
\<close>

datatype action =
    AddToCart string int
  | EditQuantity nat int
  | RemoveLine nat
  | PlaceOrder string string string
  | UpdateStatus int order_status
  | SaveMenu "menu_item list"

definition commit :: "session \<Rightarrow> error + session \<Rightarrow> session" where
  "commit s r = (case r of Inl e \<Rightarrow> s | Inr s' \<Rightarrow> s')"

fun step :: "session \<Rightarrow> action \<Rightarrow> session" where
  "step s (AddToCart selected_item_name qty) =
     (if get_available_menu s = [] then s
      else commit s (add_to_cart s selected_item_name qty))"
| "step s (EditQuantity idx new_qty) =
     (if get_available_menu s = [] \<or> cart s = [] then s
      else commit s (quantity_edit s idx new_qty))"
| "step s (RemoveLine idx) =
     (if get_available_menu s = [] \<or> cart s = [] then s
      else commit s (remove_line s idx))"
| "step s (PlaceOrder now special_instructions preferred_time) =
     (if get_available_menu s = [] \<or> cart s = [] then s
      else commit s (place_order s now special_instructions preferred_time))"
| "step s (UpdateStatus selected new_status) =
     (if orders s = [] then s
      else commit s (update_status s selected new_status))"
| "step s (SaveMenu edited_df) = commit s (save_menu_changes s edited_df)"

definition run :: "session \<Rightarrow> action list \<Rightarrow> session" where
  "run s acts = foldl step s acts"

section \<open>Invariants of the session\<close>

text \<open>
  Two properties that every session reached from the initial one has: the order ids
  are 1, 2, ... in table order with the counter one ahead of the last of them, and
  every cart line carries the float product of its price and its quantity as subtotal.
\<close>

definition sequential_ids :: "session \<Rightarrow> bool" where
  "sequential_ids s \<longleftrightarrow>
     order_id_counter s = int (length (orders s)) + 1
     \<and> map order_id (orders s) = [1..int (length (orders s))]"


section \<open>Auxiliary facts\<close>

subsection \<open>Rounding\<close>

lemma binade_bounds:
  assumes "x \<noteq> 0"
  shows "2 powi (binade x) \<le> \<bar>x\<bar> \<and> \<bar>x\<bar> < 2 powi (binade x + 1)"
proof (cases "1 \<le> \<bar>x\<bar>")
  case True
  let ?n = "\<lfloor>\<bar>x\<bar>\<rfloor>"
  have n: "0 < ?n" using True by linarith
  from bitlen_bounds [OF n] have lo: "2 ^ nat (bitlen ?n - 1) \<le> ?n" and hi: "?n < 2 ^ nat (bitlen ?n)"
    by simp_all
  have b: "1 \<le> bitlen ?n" using n by (auto simp: bitlen_alt_def)
  have "real_of_int (2 ^ nat (bitlen ?n - 1)) \<le> real_of_int ?n"
    using lo by linarith
  also have "\<dots> \<le> \<bar>x\<bar>" by linarith
  finally have 1: "2 powi (bitlen ?n - 1) \<le> \<bar>x\<bar>"
    using b by (simp add: power_int_def)
  have "?n + 1 \<le> 2 ^ nat (bitlen ?n)" using hi by linarith
  then have "real_of_int (?n + 1) \<le> real_of_int (2 ^ nat (bitlen ?n))"
    by linarith
  moreover have "\<bar>x\<bar> < real_of_int (?n + 1)" by linarith
  ultimately have "\<bar>x\<bar> < real_of_int (2 ^ nat (bitlen ?n))" by linarith
  then have 2: "\<bar>x\<bar> < 2 powi (bitlen ?n)"
    using b by (simp add: power_int_def)
  from 1 2 True show ?thesis by (simp add: binade_def)
next
  case False
  then have x1: "\<bar>x\<bar> < 1" by simp
  have x0: "0 < \<bar>x\<bar>" using assms by simp
  let ?y = "1 / \<bar>x\<bar>"
  let ?m = "\<lceil>?y\<rceil> - 1"
  have y1: "1 < ?y" using x0 x1 by simp
  have m: "0 < ?m" using y1 by linarith
  have my: "real_of_int ?m < ?y" "?y \<le> real_of_int ?m + 1" by linarith+
  from bitlen_bounds [OF m] have lo: "2 ^ nat (bitlen ?m - 1) \<le> ?m" and hi: "?m < 2 ^ nat (bitlen ?m)"
    by simp_all
  have b: "1 \<le> bitlen ?m" using m by (auto simp: bitlen_alt_def)
  have "real_of_int (2 ^ nat (bitlen ?m - 1)) \<le> real_of_int ?m" using lo by linarith
  with my(1) have "real_of_int (2 ^ nat (bitlen ?m - 1)) < ?y" by linarith
  then have ylo: "2 ^ nat (bitlen ?m - 1) < ?y" by simp
  have "?m + 1 \<le> 2 ^ nat (bitlen ?m)" using hi by linarith
  then have "real_of_int ?m + 1 \<le> real_of_int (2 ^ nat (bitlen ?m))" by linarith
  with my(2) have "?y \<le> real_of_int (2 ^ nat (bitlen ?m))" by linarith
  then have yhi: "?y \<le> 2 ^ nat (bitlen ?m)" by simp
  have 1: "2 powi (- bitlen ?m) \<le> \<bar>x\<bar>"
  proof -
    have "\<bar>x\<bar> * ?y \<le> \<bar>x\<bar> * 2 ^ nat (bitlen ?m)"
      using yhi x0 by (intro mult_left_mono) simp_all
    then have "1 \<le> \<bar>x\<bar> * 2 ^ nat (bitlen ?m)" using x0 by simp
    then have "1 / 2 ^ nat (bitlen ?m) \<le> \<bar>x\<bar>"
      by (simp add: field_simps)
    then show ?thesis using b by (simp add: power_int_def field_simps)
  qed
  have 2: "\<bar>x\<bar> < 2 powi (- bitlen ?m + 1)"
  proof -
    have "\<bar>x\<bar> * 2 ^ nat (bitlen ?m - 1) < \<bar>x\<bar> * ?y"
      using ylo x0 by (intro mult_strict_left_mono) simp_all
    then have "\<bar>x\<bar> * 2 ^ nat (bitlen ?m - 1) < 1" using x0 by simp
    then have "\<bar>x\<bar> < 1 / 2 ^ nat (bitlen ?m - 1)"
      by (simp add: field_simps)
    moreover have "(2::real) powi (- bitlen ?m + 1) = 1 / 2 ^ nat (bitlen ?m - 1)"
      using b by (simp add: power_int_def field_simps nat_diff_distrib)
    ultimately show ?thesis by simp
  qed
  from 1 2 False show ?thesis by (simp add: binade_def)
qed




declare accumulate8.simps [simp del] pairwise_sum.simps [simp del]

lemma pairwise_sum_small: "length as < 8 \<Longrightarrow> pairwise_sum as = sum_loop 0 as"
  by (subst pairwise_sum.simps) simp

lemma round_half_even_of_int: "round_half_even (of_int z) = z"
  by (simp add: round_half_even_def)

lemma float64_of_int:
  assumes "\<bar>n\<bar> < 2 ^ 53"
  shows "float64 (of_int n) = of_int n"
proof (cases "n = 0")
  case True
  then show ?thesis by (simp add: float64_def)
next
  case False
  let ?x = "real_of_int n"
  have x: "?x \<noteq> 0" using False by simp
  from binade_bounds [OF x] have lo: "2 powi (binade ?x) \<le> \<bar>?x\<bar>" by simp
  have "\<bar>?x\<bar> < 2 ^ 53" using assms by (metis of_int_abs of_int_less_numeral_power_cancel_iff)
  then have "\<bar>?x\<bar> < 2 powi 53" by simp
  have e: "binade ?x \<le> 52"
  proof (rule ccontr)
    assume "\<not> binade ?x \<le> 52"
    then have "(2::real) powi 53 \<le> 2 powi (binade ?x)"
      by (intro power_int_increasing) simp_all
    with lo \<open>\<bar>?x\<bar> < 2 powi 53\<close> show False by linarith
  qed
  define k where "k = nat (52 - binade ?x)"
  have u: "(2::real) powi (binade ?x - 52) = 1 / 2 ^ k"
    using e by (simp add: k_def power_int_def field_simps)
  have "?x / (1 / 2 ^ k) = of_int (n * 2 ^ k)" by simp
  then have "round_half_even (?x / (1 / 2 ^ k)) = n * 2 ^ k"
    by (simp only: round_half_even_of_int)
  then show ?thesis
    using x by (simp add: float64_def Let_def u)
qed

lemma float64_numeral: "numeral n < (2::int) ^ 53 \<Longrightarrow> float64 (numeral n) = numeral n"
  using float64_of_int [of "numeral n"] by simp

lemma float64_zero: "float64 0 = 0"
  by (simp add: float64_def)

lemma float64_one: "float64 1 = 1"
  using float64_of_int [of 1] by simp




subsection \<open>Sums, duplicates and status updates\<close>

lemma sum_from_sum_list: "sum_from acc xs = acc + sum_list xs"
  by (induction xs arbitrary: acc) (simp_all add: add.assoc)

lemma column_sum_sum_list: "column_sum xs = sum_list xs"
  by (simp add: column_sum_def sum_from_sum_list)

lemma duplicated_from_any:
  "any_true (duplicated_from seen xs) \<longleftrightarrow> \<not> distinct xs \<or> set xs \<inter> set seen \<noteq> {}"
  by (induction xs arbitrary: seen) (auto simp: any_true_def)

lemma any_duplicated_iff: "any_true (duplicated xs) \<longleftrightarrow> \<not> distinct xs"
  by (simp add: duplicated_def duplicated_from_any)

lemma set_status_at_length [simp]: "length (set_status_at is st os) = length os"
  by (induction "is" arbitrary: os) simp_all

lemma set_status_at_nth:
  "j < length os \<Longrightarrow> set (is) \<subseteq> {..<length os} \<Longrightarrow>
   set_status_at is st os ! j = (if j \<in> set is then (os ! j)\<lparr>status := st\<rparr> else os ! j)"
proof (induction "is" arbitrary: os)
  case Nil
  then show ?case by simp
next
  case (Cons i "is")
  let ?os = "os[i := (os ! i)\<lparr>status := st\<rparr>]"
  have "set_status_at is st ?os ! j = (if j \<in> set is then (?os ! j)\<lparr>status := st\<rparr> else ?os ! j)"
    using Cons.prems by (intro Cons.IH) auto
  then show ?case using Cons.prems by (auto simp: nth_list_update)
qed

lemma set_status_at_order_index:
  "set_status_at (order_index os sel) st os =
     map (\<lambda>r. if order_id r = sel then r\<lparr>status := st\<rparr> else r) os"
proof (rule nth_equalityI)
  show "length (set_status_at (order_index os sel) st os) =
        length (map (\<lambda>r. if order_id r = sel then r\<lparr>status := st\<rparr> else r) os)"
    by simp
next
  fix j assume "j < length (set_status_at (order_index os sel) st os)"
  then have j: "j < length os" by simp
  have sub: "set (order_index os sel) \<subseteq> {..<length os}"
    by (auto simp: order_index_def)
  have mem: "j \<in> set (order_index os sel) \<longleftrightarrow> order_id (os ! j) = sel"
    using j by (simp add: order_index_def)
  show "set_status_at (order_index os sel) st os ! j =
        map (\<lambda>r. if order_id r = sel then r\<lparr>status := st\<rparr> else r) os ! j"
    using j by (simp add: set_status_at_nth [OF j sub] mem)
qed

lemma order_index_empty_iff: "order_index os sel = [] \<longleftrightarrow> sel \<notin> order_id ` set os"
proof -
  have "order_index os sel = [] \<longleftrightarrow> (\<forall>i<length os. order_id (os ! i) \<noteq> sel)"
    by (auto simp: order_index_def filter_empty_conv)
  also have "\<dots> \<longleftrightarrow> (\<forall>r\<in>set os. order_id r \<noteq> sel)"
    by (metis in_set_conv_nth)
  finally show ?thesis by auto
qed

lemma update_status_eq:
  "update_status s sel st =
     (if sel \<in> order_id ` set (orders s)
      then Inr (s\<lparr>orders := map (\<lambda>r. if order_id r = sel then r\<lparr>status := st\<rparr> else r) (orders s)\<rparr>)
      else Inl OrderNotFound)"
  by (simp add: update_status_def Let_def order_index_empty_iff set_status_at_order_index)

lemmas session_defs =
  run_def commit_def initialize_data_def get_available_menu_def add_to_cart_def
  quantity_edit_def remove_line_def place_order_def save_menu_changes_def
  any_duplicated_iff update_status_eq

lemmas session_eval =
  session_defs
  fl_mul_def fl_add_def fl_sub_def float_of_int_def float64_numeral float64_zero float64_one
  float_column_sum_def pairwise_sum_small

subsection \<open>Runs and the order id invariant\<close>

lemma run_Nil: "run s [] = s"
  by (simp add: run_def)

lemma run_Cons: "run s (a # acts) = run (step s a) acts"
  by (simp add: run_def)

lemma sequential_ids_initial: "sequential_ids initialize_data"
  by (simp add: sequential_ids_def initialize_data_def)

lemma upto_snoc_length: "[1..int n] @ [int n + 1] = [1..int (Suc n)]"
proof -
  have "[1..int n + 1] = [1..int n + 1 - 1] @ [int n + 1]"
    by (rule upto_rec2) simp
  then show ?thesis by (simp add: add.commute)
qed

lemma sequential_ids_step: "sequential_ids s \<Longrightarrow> sequential_ids (step s a)"
proof (cases a)
  case (PlaceOrder now ins pk)
  assume inv: "sequential_ids s"
  then show ?thesis
    using upto_snoc_length [of "length (orders s)"]
    by (simp add: PlaceOrder sequential_ids_def place_order_def commit_def Let_def)
next
  case (UpdateStatus sel st)
  assume "sequential_ids s"
  moreover have "map order_id (map (\<lambda>r. if order_id r = sel then r\<lparr>status := st\<rparr> else r) (orders s))
      = map order_id (orders s)"
    by (induction "orders s") auto
  ultimately show ?thesis
    by (simp add: UpdateStatus sequential_ids_def update_status_eq commit_def)
qed (auto simp: sequential_ids_def add_to_cart_def quantity_edit_def remove_line_def
       save_menu_changes_def commit_def Let_def split: list.splits)

lemma sequential_ids_run: "sequential_ids s \<Longrightarrow> sequential_ids (run s acts)"
  by (induction acts arbitrary: s) (simp_all add: run_Nil run_Cons sequential_ids_step)

lemma Max_upto: "0 < n \<Longrightarrow> Max (set [1..int n]) = int n"
  by (simp add: Max_eq_iff)

subsection \<open>The cart handlers\<close>

lemma quantity_edit_Inr:
  assumes "quantity_edit s idx new_qty = Inr s'"
  shows "idx < length (cart s)
     \<and> s' = (if new_qty \<noteq> quantity (cart s ! idx)
              then s\<lparr>cart := (cart s)[idx := (cart s ! idx)\<lparr>quantity := new_qty,
                      subtotal := fl_mul (float_of_int new_qty) (line_price (cart s ! idx))\<rparr>]\<rparr>
              else s)"
  using assms by (simp add: quantity_edit_def Let_def split: if_splits)

lemma available_named:
  "filter (\<lambda>m. name m = selected) (get_available_menu s) =
   filter (\<lambda>m. available m \<and> name m = selected) (menu_items s)"
  by (simp add: get_available_menu_def)

lemma add_to_cart_appends:
  assumes "selected \<noteq> []" and "add_to_cart s selected qty = Inr s'"
  shows "\<exists>m ms. filter (\<lambda>m. available m \<and> name m = selected) (menu_items s) = m # ms
           \<and> s' = s\<lparr>cart := cart s @
                 [\<lparr>line_item_id = item_id m, line_name = selected, line_price = price m,
                   quantity = qty, subtotal = fl_mul (price m) (float_of_int qty)\<rparr>]\<rparr>"
  using assms by (auto simp: add_to_cart_def available_named split: list.splits)

lemma add_to_cart_raises:
  assumes "selected \<noteq> []"
  shows "add_to_cart s selected qty = Inl IndexError \<longleftrightarrow>
         filter (\<lambda>m. available m \<and> name m = selected) (menu_items s) = []"
  using assms by (auto simp: add_to_cart_def available_named split: list.splits)

lemma filter_Cons_first_index:
  assumes "filter P xs = x # rest"
  shows "\<exists>k<length xs. xs ! k = x \<and> P (xs ! k) \<and> (\<forall>j<k. \<not> P (xs ! j))"
proof -
  from assms obtain us vs where xs: "xs = us @ x # vs" and us: "\<forall>u\<in>set us. \<not> P u" and x: "P x"
    by (auto simp: filter_eq_Cons_iff)
  have "length us < length xs" "xs ! length us = x"
    by (simp_all add: xs)
  moreover have "\<forall>j<length us. \<not> P (xs ! j)"
    using us by (simp add: xs nth_append)
  ultimately show ?thesis using x by blast
qed



subsection \<open>Orders under a step\<close>

lemma step_orders_nth:
  assumes "i < length (orders s)"
  shows "i < length (orders (step s a))
     \<and> orders (step s a) ! i = (orders s ! i)\<lparr>status := status (orders (step s a) ! i)\<rparr>"
proof (cases a)
  case (AddToCart n q)
  then show ?thesis using assms
    by (auto simp: add_to_cart_def commit_def split: list.splits)
next
  case (EditQuantity j q)
  then show ?thesis using assms
    by (auto simp: quantity_edit_def commit_def Let_def)
next
  case (RemoveLine j)
  then show ?thesis using assms
    by (auto simp: remove_line_def commit_def)
next
  case (PlaceOrder now ins pk)
  then show ?thesis using assms
    by (auto simp: place_order_def commit_def Let_def nth_append)
next
  case (UpdateStatus sel st)
  then show ?thesis using assms
    by (auto simp: update_status_eq commit_def)
next
  case (SaveMenu m)
  then show ?thesis using assms
    by (auto simp: save_menu_changes_def commit_def)
qed

lemma run_orders_nth:
  "i < length (orders s) \<Longrightarrow>
     i < length (orders (run s acts))
     \<and> orders (run s acts) ! i = (orders s ! i)\<lparr>status := status (orders (run s acts) ! i)\<rparr>"
proof (induction acts arbitrary: s)
  case Nil
  then show ?case by (simp add: run_Nil)
next
  case (Cons a acts)
  from step_orders_nth [OF Cons.prems, of a]
  have 1: "i < length (orders (step s a))"
    and 2: "orders (step s a) ! i = (orders s ! i)\<lparr>status := status (orders (step s a) ! i)\<rparr>"
    by simp_all
  from Cons.IH [OF 1]
  have 3: "i < length (orders (run (step s a) acts))"
    and 4: "orders (run (step s a) acts) ! i =
        (orders (step s a) ! i)\<lparr>status := status (orders (run (step s a) acts) ! i)\<rparr>"
    by simp_all
  have "orders (run (step s a) acts) ! i =
        (orders s ! i)\<lparr>status := status (orders (run (step s a) acts) ! i)\<rparr>"
    by (subst 4, subst 2) simp
  with 3 show ?case by (simp add: run_Cons)
qed

lemma step_status_change:
  assumes "i < length (orders s)"
    and "status (orders (step s a) ! i) \<noteq> status (orders s ! i)"
  shows "a = UpdateStatus (order_id (orders s ! i)) (status (orders (step s a) ! i))"
proof (cases a)
  case (AddToCart n q)
  then show ?thesis using assms
    by (auto simp: add_to_cart_def commit_def split: list.splits if_splits)
next
  case (EditQuantity j q)
  then show ?thesis using assms
    by (auto simp: quantity_edit_def commit_def Let_def split: if_splits)
next
  case (RemoveLine j)
  then show ?thesis using assms
    by (auto simp: remove_line_def commit_def split: if_splits)
next
  case (PlaceOrder now ins pk)
  then show ?thesis using assms
    by (auto simp: place_order_def commit_def Let_def nth_append split: if_splits)
next
  case (UpdateStatus sel st)
  then show ?thesis using assms
    by (auto simp: update_status_eq commit_def split: if_splits)
next
  case (SaveMenu m)
  then show ?thesis using assms
    by (auto simp: save_menu_changes_def commit_def split: if_splits)
qed

section \<open>Pricing\<close>




text \<open>
  Claim C8. The estimated preparation time is 10 plus twice the sum of the quantities of
  the cart lines, for every cart; for the empty cart it is 10.
\<close>

theorem estimated_time_formula:
  "get_estimated_time s = 10 + 2 * sum_list (map quantity (cart s))
   \<and> get_estimated_time (s\<lparr>cart := []\<rparr>) = 10"
  by (simp add: get_estimated_time_def column_sum_sum_list)

section \<open>Placing orders\<close>

text \<open>
  Claim C2. In a session reached from the initial one, Place Order on a non-empty cart
  succeeds and appends exactly one order. Its id is 1 when there was no order before
  and otherwise one more than the greatest id in the table; the ids in the table are
  then 1, 2, ... without gap, hence strictly increasing. The new order is Pending and
  the cart is empty afterwards.
\<close>

theorem place_order_assigns_next_id:
  assumes "s = run initialize_data acts" and "cart s \<noteq> []"
  shows "\<exists>new_order.
      place_order s now special_instructions preferred_time =
        Inr (s\<lparr>orders := orders s @ [new_order],
               order_id_counter := order_id_counter s + 1,
               cart := []\<rparr>)
      \<and> order_id new_order = (if orders s = [] then 1 else Max (order_id ` set (orders s)) + 1)
      \<and> status new_order = Pending
      \<and> map order_id (orders s @ [new_order]) = [1..int (length (orders s)) + 1]
      \<and> sorted_wrt (<) (map order_id (orders s @ [new_order]))"
proof -
  have inv: "sequential_ids s"
    using assms(1) by (simp add: sequential_ids_run sequential_ids_initial)
  let ?n = "length (orders s)"
  let ?new = "\<lparr> order_id = order_id_counter s, timestamp = now, items = cart s,
                total_amount = final_amount (cart s), status = Pending,
                instructions = special_instructions, pickup_time = preferred_time \<rparr>"
  have ids: "map order_id (orders s) = [1..int ?n]" and cnt: "order_id_counter s = int ?n + 1"
    using inv by (simp_all add: sequential_ids_def)
  have placed: "place_order s now special_instructions preferred_time =
        Inr (s\<lparr>orders := orders s @ [?new], order_id_counter := order_id_counter s + 1, cart := []\<rparr>)"
    using assms(2) by (simp add: place_order_def)
  have "order_id ` set (orders s) = set [1..int ?n]"
    using ids by (metis set_map)
  then have mx: "orders s \<noteq> [] \<Longrightarrow> Max (order_id ` set (orders s)) = int ?n"
    using Max_upto [of ?n] by simp
  have next_id: "order_id ?new = (if orders s = [] then 1 else Max (order_id ` set (orders s)) + 1)"
    using cnt mx by simp
  have all_ids: "map order_id (orders s @ [?new]) = [1..int ?n + 1]"
    using ids cnt upto_snoc_length [of ?n] by (simp add: add.commute)
  have "sorted_wrt (<) [1..int ?n + 1]"
    by (rule sorted_wrt_upto)
  then have incr: "sorted_wrt (<) (map order_id (orders s @ [?new]))"
    using all_ids by simp
  from placed next_id all_ids incr show ?thesis
    by (intro exI [of _ ?new]) simp
qed

theorem place_order_assigns_next_id_witness:
  "cart (run initialize_data
      [AddToCart ''Coffee'' 2, PlaceOrder ''2024-01-01 12:00:00'' [] ''12:30:00'',
       AddToCart ''Tea'' 1]) \<noteq> []
   \<and> map order_id (orders (step (run initialize_data
      [AddToCart ''Coffee'' 2, PlaceOrder ''2024-01-01 12:00:00'' [] ''12:30:00'',
       AddToCart ''Tea'' 1]) (PlaceOrder ''2024-01-01 12:05:00'' [] ''12:45:00''))) = [1, 2]
   \<and> map status (orders (step (run initialize_data
      [AddToCart ''Coffee'' 2, PlaceOrder ''2024-01-01 12:00:00'' [] ''12:30:00'',
       AddToCart ''Tea'' 1]) (PlaceOrder ''2024-01-01 12:05:00'' [] ''12:45:00''))) = [Pending, Pending]
   \<and> cart (step (run initialize_data
      [AddToCart ''Coffee'' 2, PlaceOrder ''2024-01-01 12:00:00'' [] ''12:30:00'',
       AddToCart ''Tea'' 1]) (PlaceOrder ''2024-01-01 12:05:00'' [] ''12:45:00'')) = []"
proof -
  let ?s = "run initialize_data
      [AddToCart ''Coffee'' 2, PlaceOrder ''2024-01-01 12:00:00'' [] ''12:30:00'',
       AddToCart ''Tea'' 1]"
  have c: "cart ?s \<noteq> []"
    by (simp add: session_eval)
  have a: "get_available_menu ?s \<noteq> []"
    by (simp add: session_eval)
  have o: "map order_id (orders ?s) = [1]" "map status (orders ?s) = [Pending]"
    by (simp_all add: session_eval)
  then have m: "Max (order_id ` set (orders ?s)) = 1" "orders ?s \<noteq> []"
    by (auto simp flip: set_map)
  from place_order_assigns_next_id [OF refl c, of "''2024-01-01 12:05:00''" "[]" "''12:45:00''"]
  obtain new_order where
    p: "place_order ?s ''2024-01-01 12:05:00'' [] ''12:45:00'' =
          Inr (?s\<lparr>orders := orders ?s @ [new_order],
                  order_id_counter := order_id_counter ?s + 1, cart := []\<rparr>)"
    and i: "order_id new_order = (if orders ?s = [] then 1 else Max (order_id ` set (orders ?s)) + 1)"
    and t: "status new_order = Pending"
    by blast
  have st: "step ?s (PlaceOrder ''2024-01-01 12:05:00'' [] ''12:45:00'') =
      ?s\<lparr>orders := orders ?s @ [new_order],
                  order_id_counter := order_id_counter ?s + 1, cart := []\<rparr>"
    using c a p by (simp add: commit_def)
  from i m have "order_id new_order = 2" by simp
  with c o t show ?thesis
    unfolding st by simp
qed

text \<open>
  Claim C3. Place Order on an empty cart reports the empty-cart error and changes
  nothing: the session afterwards is the session before, with its orders, its id
  counter and its cart.
\<close>

theorem place_order_empty_cart:
  "cart s = [] \<Longrightarrow>
     place_order s now special_instructions preferred_time = Inl EmptyCart
     \<and> commit s (place_order s now special_instructions preferred_time) = s
     \<and> step s (PlaceOrder now special_instructions preferred_time) = s"
  by (simp add: place_order_def commit_def)

theorem place_order_empty_cart_witness:
  "cart initialize_data = []
   \<and> place_order initialize_data ''2024-01-01 12:00:00'' '''' ''12:30:00'' = Inl EmptyCart
   \<and> step initialize_data (PlaceOrder ''2024-01-01 12:00:00'' '''' ''12:30:00'') = initialize_data"
proof -
  have h: "cart initialize_data = []" by (simp add: initialize_data_def)
  from place_order_empty_cart [OF h] h show ?thesis by simp
qed

section \<open>Saving the menu and updating a status\<close>

text \<open>
  Claim C4. Save Menu Changes with a repeated item id in the edited table reports the
  duplicate-id error and keeps the session, and so the menu, as it was. With pairwise
  different ids it replaces the whole menu by the edited table, whatever the names,
  categories, prices and availability flags of the rows are: no other check is made.
\<close>

theorem save_menu_changes_validation:
  "(\<not> distinct (map item_id edited_df) \<longrightarrow>
      save_menu_changes s edited_df = Inl DuplicateId
      \<and> step s (SaveMenu edited_df) = s)
   \<and> (distinct (map item_id edited_df) \<longrightarrow>
      save_menu_changes s edited_df = Inr (s\<lparr>menu_items := edited_df\<rparr>)
      \<and> step s (SaveMenu edited_df) = s\<lparr>menu_items := edited_df\<rparr>)"
  by (simp add: save_menu_changes_def any_duplicated_iff commit_def)

theorem save_menu_changes_validation_witness:
  "(\<not> distinct (map item_id
        [\<lparr>item_id = 1, name = ''Coffee'', category = ''Beverage'', price = 50, available = True\<rparr>,
         \<lparr>item_id = 1, name = ''Tea'', category = ''Beverage'', price = 40, available = True\<rparr>])
    \<and> save_menu_changes initialize_data
        [\<lparr>item_id = 1, name = ''Coffee'', category = ''Beverage'', price = 50, available = True\<rparr>,
         \<lparr>item_id = 1, name = ''Tea'', category = ''Beverage'', price = 40, available = True\<rparr>]
        = Inl DuplicateId
    \<and> menu_items (step initialize_data (SaveMenu
        [\<lparr>item_id = 1, name = ''Coffee'', category = ''Beverage'', price = 50, available = True\<rparr>,
         \<lparr>item_id = 1, name = ''Tea'', category = ''Beverage'', price = 40, available = True\<rparr>]))
        = menu_items initialize_data)
   \<and> (distinct (map item_id
        [\<lparr>item_id = 9, name = [], category = ''Drink'', price = - 5, available = True\<rparr>,
         \<lparr>item_id = 1, name = [], category = ''Beverage'', price = 40, available = False\<rparr>])
    \<and> menu_items (step initialize_data (SaveMenu
        [\<lparr>item_id = 9, name = [], category = ''Drink'', price = - 5, available = True\<rparr>,
         \<lparr>item_id = 1, name = [], category = ''Beverage'', price = 40, available = False\<rparr>]))
        = [\<lparr>item_id = 9, name = [], category = ''Drink'', price = - 5, available = True\<rparr>,
           \<lparr>item_id = 1, name = [], category = ''Beverage'', price = 40, available = False\<rparr>])"
proof -
  let ?dup = "[\<lparr>item_id = 1, name = ''Coffee'', category = ''Beverage'', price = 50::real, available = True\<rparr>,
         \<lparr>item_id = 1, name = ''Tea'', category = ''Beverage'', price = 40, available = True\<rparr>]"
  let ?ok = "[\<lparr>item_id = 9, name = [], category = ''Drink'', price = - 5, available = True\<rparr>,
         \<lparr>item_id = 1, name = [], category = ''Beverage'', price = (40::real), available = False\<rparr>]"
  have d: "\<not> distinct (map item_id ?dup)" by simp
  have k: "distinct (map item_id ?ok)" by simp
  from save_menu_changes_validation [of ?dup initialize_data] d
  have 1: "save_menu_changes initialize_data ?dup = Inl DuplicateId
        \<and> menu_items (step initialize_data (SaveMenu ?dup)) = menu_items initialize_data"
    by (simp del: step.simps)
  from save_menu_changes_validation [of ?ok initialize_data] k
  have 2: "menu_items (step initialize_data (SaveMenu ?ok)) = ?ok"
    by (simp del: step.simps)
  from d k 1 2 show ?thesis by blast
qed

text \<open>
  Claim C5. Update Status with an id that no order carries reports the order-not-found
  error and leaves the session unchanged. With an id that some order carries it
  succeeds for every new status, whatever the current one is, and writes the new
  status into the orders with that id.
\<close>

theorem update_status_not_found_or_overwrite:
  "(selected \<notin> order_id ` set (orders s) \<longrightarrow>
      update_status s selected new_status = Inl OrderNotFound
      \<and> step s (UpdateStatus selected new_status) = s)
   \<and> (selected \<in> order_id ` set (orders s) \<longrightarrow>
      update_status s selected new_status =
        Inr (s\<lparr>orders := map (\<lambda>r. if order_id r = selected then r\<lparr>status := new_status\<rparr> else r)
                            (orders s)\<rparr>))"
  by (simp add: update_status_eq commit_def)

theorem update_status_not_found_or_overwrite_witness:
  "(7 \<notin> order_id ` set (orders (run initialize_data
        [AddToCart ''Coffee'' 2, PlaceOrder ''2024-01-01 12:00:00'' ''no sugar'' ''12:30:00'']))
    \<and> update_status (run initialize_data
        [AddToCart ''Coffee'' 2, PlaceOrder ''2024-01-01 12:00:00'' ''no sugar'' ''12:30:00''])
        7 Ready = Inl OrderNotFound)
   \<and> (1 \<in> order_id ` set (orders (run initialize_data
        [AddToCart ''Coffee'' 2, PlaceOrder ''2024-01-01 12:00:00'' ''no sugar'' ''12:30:00'',
         UpdateStatus 1 Completed]))
    \<and> map_sum id (\<lambda>s. map status (orders s)) (update_status (run initialize_data
        [AddToCart ''Coffee'' 2, PlaceOrder ''2024-01-01 12:00:00'' ''no sugar'' ''12:30:00'',
         UpdateStatus 1 Completed]) 1 Pending) = Inr [Pending])"
proof -
  let ?s = "run initialize_data
        [AddToCart ''Coffee'' 2, PlaceOrder ''2024-01-01 12:00:00'' ''no sugar'' ''12:30:00'']"
  let ?t = "run initialize_data
        [AddToCart ''Coffee'' 2, PlaceOrder ''2024-01-01 12:00:00'' ''no sugar'' ''12:30:00'',
         UpdateStatus 1 Completed]"
  have n: "7 \<notin> order_id ` set (orders ?s)"
    by (simp add: session_eval)
  have y: "1 \<in> order_id ` set (orders ?t)"
    by (simp add: session_eval)
  from update_status_not_found_or_overwrite [of 7 ?s Ready] n
  have 1: "update_status ?s 7 Ready = Inl OrderNotFound" by simp
  from update_status_not_found_or_overwrite [of 1 ?t Pending] y
  have 2: "map_sum id (\<lambda>s. map status (orders s)) (update_status ?t 1 Pending) = Inr [Pending]"
    by (simp add: session_eval)
  from n y 1 2 show ?thesis by blast
qed

section \<open>Cart lines\<close>



text \<open>
  Claim C9. Saving a new menu, whatever its prices and availability flags, leaves the
  cart as it is. A quantity edit made after the save keeps the line's item id, name and
  unit price and computes the new subtotal from the unit price stored in the line; the
  menu does not enter the result.
\<close>

theorem cart_lines_are_snapshots:
  "cart (step s (SaveMenu edited_df)) = cart s
   \<and> (quantity_edit (step s (SaveMenu edited_df)) idx new_qty = Inr s' \<longrightarrow>
        idx < length (cart s)
        \<and> line_item_id (cart s' ! idx) = line_item_id (cart s ! idx)
        \<and> line_name (cart s' ! idx) = line_name (cart s ! idx)
        \<and> line_price (cart s' ! idx) = line_price (cart s ! idx)
        \<and> (new_qty \<noteq> quantity (cart s ! idx) \<longrightarrow>
             subtotal (cart s' ! idx) = fl_mul (float_of_int new_qty) (line_price (cart s ! idx))))"
proof -
  define t where "t = step s (SaveMenu edited_df)"
  have c: "cart t = cart s"
    by (simp add: t_def save_menu_changes_def commit_def)
  have "idx < length (cart s)
        \<and> line_item_id (cart s' ! idx) = line_item_id (cart s ! idx)
        \<and> line_name (cart s' ! idx) = line_name (cart s ! idx)
        \<and> line_price (cart s' ! idx) = line_price (cart s ! idx)
        \<and> (new_qty \<noteq> quantity (cart s ! idx) \<longrightarrow>
             subtotal (cart s' ! idx) = fl_mul (float_of_int new_qty) (line_price (cart s ! idx)))"
    if e: "quantity_edit t idx new_qty = Inr s'"
    using quantity_edit_Inr [OF e] c
    by (cases "new_qty = quantity (cart s ! idx)") simp_all
  with c show ?thesis unfolding t_def by blast
qed

theorem cart_lines_are_snapshots_witness:
  "quantity_edit (step (run initialize_data [AddToCart ''Coffee'' 2])
       (SaveMenu [\<lparr>item_id = 1, name = ''Coffee'', category = ''Beverage'', price = 75,
                   available = True\<rparr>])) 0 3 =
     Inr ((step (run initialize_data [AddToCart ''Coffee'' 2])
       (SaveMenu [\<lparr>item_id = 1, name = ''Coffee'', category = ''Beverage'', price = 75,
                   available = True\<rparr>]))
          \<lparr>cart := [\<lparr>line_item_id = 1, line_name = ''Coffee'', line_price = 50, quantity = 3,
                     subtotal = 150\<rparr>]\<rparr>)
   \<and> 3 \<noteq> quantity (cart (run initialize_data [AddToCart ''Coffee'' 2]) ! 0)
   \<and> map price (menu_items (step (run initialize_data [AddToCart ''Coffee'' 2])
       (SaveMenu [\<lparr>item_id = 1, name = ''Coffee'', category = ''Beverage'', price = 75,
                   available = True\<rparr>]))) = [75]
   \<and> fl_mul (float_of_int 3) (line_price (cart (run initialize_data [AddToCart ''Coffee'' 2]) ! 0)) = 150"
proof -
  let ?s = "run initialize_data [AddToCart ''Coffee'' 2]"
  let ?m = "[\<lparr>item_id = 1, name = ''Coffee'', category = ''Beverage'', price = 75::real,
                   available = True\<rparr>]"
  let ?l = "\<lparr>line_item_id = 1, line_name = ''Coffee'', line_price = 50::real, quantity = 3,
                     subtotal = 150\<rparr>"
  have c: "cart ?s = [\<lparr>line_item_id = 1, line_name = ''Coffee'', line_price = 50, quantity = 2,
                     subtotal = 100\<rparr>]"
    by (simp add: session_eval)
  have e: "quantity_edit (step ?s (SaveMenu ?m)) 0 3 = Inr ((step ?s (SaveMenu ?m))\<lparr>cart := [?l]\<rparr>)"
    using cart_lines_are_snapshots [of ?s ?m 0 3] c
    by (simp add: quantity_edit_def fl_mul_def float_of_int_def float64_numeral del: step.simps)
  have q: "3 \<noteq> quantity (cart ?s ! 0)"
    by (simp add: c)
  have p: "map price (menu_items (step ?s (SaveMenu ?m))) = [75]"
    by (simp add: session_eval)
  from cart_lines_are_snapshots [of ?s ?m 0 3 "(step ?s (SaveMenu ?m))\<lparr>cart := [?l]\<rparr>"] e q
  have "fl_mul (float_of_int 3) (line_price (cart ?s ! 0)) = 150"
    by (simp add: fl_mul_def float_of_int_def float64_numeral)
  with e q p show ?thesis by blast
qed

text \<open>
  Claim C10. Add to Cart looks the selection up by name, not by id, among the rows of
  the catalog that are available, and copies the first of them: the row at the least
  catalog position \<open>k\<close> that is available and carries the selected name. Rows that
  are not available are passed over, and when no available row has the name the lookup
  raises and nothing is added. An available row \<open>q\<close> that shares its name with an
  available row at an earlier catalog position is therefore never the row copied, and
  when the item ids of the catalog are pairwise different the appended line never
  carries the id of row \<open>q\<close>.
\<close>

theorem add_to_cart_first_name_match:
  assumes "selected \<noteq> []"
  shows "(add_to_cart s selected qty = Inl IndexError \<longleftrightarrow>
            \<not> (\<exists>m \<in> set (menu_items s). available m \<and> name m = selected))
     \<and> (add_to_cart s selected qty = Inr s' \<longrightarrow>
          (\<exists>k<length (menu_items s).
              available (menu_items s ! k)
            \<and> name (menu_items s ! k) = selected
            \<and> (\<forall>j<k. available (menu_items s ! j) \<longrightarrow> name (menu_items s ! j) \<noteq> selected)
            \<and> s' = s\<lparr>cart := cart s @
                 [\<lparr>line_item_id = item_id (menu_items s ! k),
                   line_name = selected,
                   line_price = price (menu_items s ! k),
                   quantity = qty,
                   subtotal = fl_mul (price (menu_items s ! k)) (float_of_int qty)\<rparr>]\<rparr>
            \<and> (\<forall>p q. p < q \<and> q < length (menu_items s)
                   \<and> available (menu_items s ! p) \<and> available (menu_items s ! q)
                   \<and> name (menu_items s ! p) = name (menu_items s ! q) \<longrightarrow>
                 k \<noteq> q
                 \<and> (distinct (map item_id (menu_items s)) \<longrightarrow>
                      line_item_id (last (cart s')) \<noteq> item_id (menu_items s ! q)))))"
proof (intro conjI impI)
  show "add_to_cart s selected qty = Inl IndexError \<longleftrightarrow>
            \<not> (\<exists>m \<in> set (menu_items s). available m \<and> name m = selected)"
    unfolding add_to_cart_raises [OF assms] by (auto simp: filter_empty_conv)
next
  let ?mi = "menu_items s"
  assume added: "add_to_cart s selected qty = Inr s'"
  from add_to_cart_appends [OF assms added] obtain m ms where
    f: "filter (\<lambda>m. available m \<and> name m = selected) ?mi = m # ms"
    and s': "s' = s\<lparr>cart := cart s @
                 [\<lparr>line_item_id = item_id m, line_name = selected, line_price = price m,
                   quantity = qty, subtotal = fl_mul (price m) (float_of_int qty)\<rparr>]\<rparr>"
    by blast
  from filter_Cons_first_index [OF f] obtain k where
    k: "k < length ?mi" and m: "?mi ! k = m"
    and ak: "available (?mi ! k)" and nk: "name (?mi ! k) = selected"
    and first: "\<forall>j<k. \<not> (available (?mi ! j) \<and> name (?mi ! j) = selected)"
    by blast
  have later: "k \<noteq> q \<and> (distinct (map item_id ?mi) \<longrightarrow>
                   line_item_id (last (cart s')) \<noteq> item_id (?mi ! q))"
    if pq: "p < q \<and> q < length ?mi \<and> available (?mi ! p) \<and> available (?mi ! q)
            \<and> name (?mi ! p) = name (?mi ! q)" for p q
  proof
    show kq: "k \<noteq> q"
    proof
      assume "k = q"
      with pq nk have "p < k" "available (?mi ! p)" "name (?mi ! p) = selected" by simp_all
      with first show False by blast
    qed
    show "distinct (map item_id ?mi) \<longrightarrow> line_item_id (last (cart s')) \<noteq> item_id (?mi ! q)"
    proof
      assume d: "distinct (map item_id ?mi)"
      have "map item_id ?mi ! k \<noteq> map item_id ?mi ! q"
        using d k pq kq by (simp add: nth_eq_iff_index_eq del: nth_map)
      then have "item_id (?mi ! k) \<noteq> item_id (?mi ! q)"
        using k pq by simp
      then show "line_item_id (last (cart s')) \<noteq> item_id (?mi ! q)"
        by (simp add: s' m)
    qed
  qed
  have later_all: "\<forall>p q. p < q \<and> q < length ?mi
                   \<and> available (?mi ! p) \<and> available (?mi ! q)
                   \<and> name (?mi ! p) = name (?mi ! q) \<longrightarrow>
                 k \<noteq> q
                 \<and> (distinct (map item_id ?mi) \<longrightarrow>
                      line_item_id (last (cart s')) \<noteq> item_id (?mi ! q))"
    using later by blast
  have first_av: "\<forall>j<k. available (?mi ! j) \<longrightarrow> name (?mi ! j) \<noteq> selected"
    using first by blast
  have appended: "s' = s\<lparr>cart := cart s @
             [\<lparr>line_item_id = item_id (?mi ! k), line_name = selected,
               line_price = price (?mi ! k), quantity = qty,
               subtotal = fl_mul (price (?mi ! k)) (float_of_int qty)\<rparr>]\<rparr>"
    using s' m by simp
  from k ak nk first_av appended later_all
  show "\<exists>k<length ?mi.
              available (?mi ! k)
            \<and> name (?mi ! k) = selected
            \<and> (\<forall>j<k. available (?mi ! j) \<longrightarrow> name (?mi ! j) \<noteq> selected)
            \<and> s' = s\<lparr>cart := cart s @
                 [\<lparr>line_item_id = item_id (?mi ! k),
                   line_name = selected,
                   line_price = price (?mi ! k),
                   quantity = qty,
                   subtotal = fl_mul (price (?mi ! k)) (float_of_int qty)\<rparr>]\<rparr>
            \<and> (\<forall>p q. p < q \<and> q < length ?mi
                   \<and> available (?mi ! p) \<and> available (?mi ! q)
                   \<and> name (?mi ! p) = name (?mi ! q) \<longrightarrow>
                 k \<noteq> q
                 \<and> (distinct (map item_id ?mi) \<longrightarrow>
                      line_item_id (last (cart s')) \<noteq> item_id (?mi ! q)))"
    by blast
qed

theorem add_to_cart_first_name_match_witness:
  "''Coffee'' \<noteq> []
   \<and> add_to_cart (run initialize_data
        [SaveMenu [\<lparr>item_id = 1, name = ''Coffee'', category = ''Beverage'', price = 50, available = False\<rparr>,
                   \<lparr>item_id = 2, name = ''Coffee'', category = ''Beverage'', price = 80, available = True\<rparr>,
                   \<lparr>item_id = 3, name = ''Coffee'', category = ''Beverage'', price = 90, available = True\<rparr>,
                   \<lparr>item_id = 4, name = ''Burger'', category = ''Meal'', price = 180, available = False\<rparr>]])
        ''Coffee'' 1 =
      Inr (run initialize_data
        [SaveMenu [\<lparr>item_id = 1, name = ''Coffee'', category = ''Beverage'', price = 50, available = False\<rparr>,
                   \<lparr>item_id = 2, name = ''Coffee'', category = ''Beverage'', price = 80, available = True\<rparr>,
                   \<lparr>item_id = 3, name = ''Coffee'', category = ''Beverage'', price = 90, available = True\<rparr>,
                   \<lparr>item_id = 4, name = ''Burger'', category = ''Meal'', price = 180, available = False\<rparr>],
         AddToCart ''Coffee'' 1])
   \<and> line_item_id (last (cart (run initialize_data
        [SaveMenu [\<lparr>item_id = 1, name = ''Coffee'', category = ''Beverage'', price = 50, available = False\<rparr>,
                   \<lparr>item_id = 2, name = ''Coffee'', category = ''Beverage'', price = 80, available = True\<rparr>,
                   \<lparr>item_id = 3, name = ''Coffee'', category = ''Beverage'', price = 90, available = True\<rparr>,
                   \<lparr>item_id = 4, name = ''Burger'', category = ''Meal'', price = 180, available = False\<rparr>],
         AddToCart ''Coffee'' 1]))) = 2
   \<and> add_to_cart (run initialize_data
        [SaveMenu [\<lparr>item_id = 1, name = ''Coffee'', category = ''Beverage'', price = 50, available = False\<rparr>,
                   \<lparr>item_id = 2, name = ''Coffee'', category = ''Beverage'', price = 80, available = True\<rparr>,
                   \<lparr>item_id = 3, name = ''Coffee'', category = ''Beverage'', price = 90, available = True\<rparr>,
                   \<lparr>item_id = 4, name = ''Burger'', category = ''Meal'', price = 180, available = False\<rparr>]])
        ''Burger'' 1 = Inl IndexError"
proof -
  let ?m = "[\<lparr>item_id = 1, name = ''Coffee'', category = ''Beverage'', price = 50::real, available = False\<rparr>,
                   \<lparr>item_id = 2, name = ''Coffee'', category = ''Beverage'', price = 80, available = True\<rparr>,
                   \<lparr>item_id = 3, name = ''Coffee'', category = ''Beverage'', price = 90, available = True\<rparr>,
                   \<lparr>item_id = 4, name = ''Burger'', category = ''Meal'', price = 180, available = False\<rparr>]"
  let ?s = "run initialize_data [SaveMenu ?m]"
  let ?s' = "run initialize_data [SaveMenu ?m, AddToCart ''Coffee'' 1]"
  have n: "''Coffee'' \<noteq> []" and b: "''Burger'' \<noteq> []" by simp_all
  have mi: "menu_items ?s = ?m"
    by (simp add: session_defs)
  have a: "add_to_cart ?s ''Coffee'' 1 = Inr ?s'"
    by (simp add: session_defs)
  from add_to_cart_first_name_match [OF n, of ?s 1 ?s'] a obtain k where
    k: "k < length (menu_items ?s)" and ak: "available (menu_items ?s ! k)"
    and line: "?s' = ?s\<lparr>cart := cart ?s @
                 [\<lparr>line_item_id = item_id (menu_items ?s ! k),
                   line_name = ''Coffee'',
                   line_price = price (menu_items ?s ! k),
                   quantity = 1,
                   subtotal = fl_mul (price (menu_items ?s ! k)) (float_of_int 1)\<rparr>]\<rparr>"
    and later: "\<forall>p q. p < q \<and> q < length (menu_items ?s)
                   \<and> available (menu_items ?s ! p) \<and> available (menu_items ?s ! q)
                   \<and> name (menu_items ?s ! p) = name (menu_items ?s ! q) \<longrightarrow>
                 k \<noteq> q
                 \<and> (distinct (map item_id (menu_items ?s)) \<longrightarrow>
                      line_item_id (last (cart ?s')) \<noteq> item_id (menu_items ?s ! q))"
    by blast
  from later have "(1::nat) < 2 \<and> 2 < length (menu_items ?s)
                   \<and> available (menu_items ?s ! 1) \<and> available (menu_items ?s ! 2)
                   \<and> name (menu_items ?s ! 1) = name (menu_items ?s ! 2) \<longrightarrow> k \<noteq> 2"
    by blast
  then have k2: "k \<noteq> 2" unfolding mi by simp
  have k0: "k \<noteq> 0"
  proof
    assume "k = 0"
    with ak show False unfolding mi by simp
  qed
  have k3: "k \<noteq> 3"
  proof
    assume "k = 3"
    with ak show False unfolding mi by simp
  qed
  have "k < 4" using k unfolding mi by simp
  with k2 k0 k3 have k1: "k = 1" by linarith
  have "cart ?s' = cart ?s @
                 [\<lparr>line_item_id = item_id (menu_items ?s ! k),
                   line_name = ''Coffee'',
                   line_price = price (menu_items ?s ! k),
                   quantity = 1,
                   subtotal = fl_mul (price (menu_items ?s ! k)) (float_of_int 1)\<rparr>]"
    by (subst line) simp
  then have id2: "line_item_id (last (cart ?s')) = 2"
    unfolding k1 mi by simp
  from add_to_cart_first_name_match [OF b, of ?s 1 ?s']
  have "add_to_cart ?s ''Burger'' 1 = Inl IndexError \<longleftrightarrow>
            \<not> (\<exists>m \<in> set (menu_items ?s). available m \<and> name m = ''Burger'')"
    by blast
  then have r: "add_to_cart ?s ''Burger'' 1 = Inl IndexError"
    unfolding mi by simp
  from n a id2 r show ?thesis by blast
qed

section \<open>Orders after creation\<close>

text \<open>
  Claim C7. An order that is in the table stays at its position through any sequence
  of actions, with the same id, items and total amount: it differs from what it was
  in its status at most. A single action changes the status of an order only if it is
  the status update for that order's id; so a status update leaves the orders with
  other ids, and all fields but the status of the orders it addresses, unchanged.
\<close>

theorem order_frozen_after_creation:
  assumes "i < length (orders s)"
  shows "i < length (orders (run s acts))
     \<and> order_id (orders (run s acts) ! i) = order_id (orders s ! i)
     \<and> items (orders (run s acts) ! i) = items (orders s ! i)
     \<and> total_amount (orders (run s acts) ! i) = total_amount (orders s ! i)
     \<and> orders (run s acts) ! i = (orders s ! i)\<lparr>status := status (orders (run s acts) ! i)\<rparr>
     \<and> (status (orders (step s a) ! i) \<noteq> status (orders s ! i) \<longrightarrow>
          a = UpdateStatus (order_id (orders s ! i)) (status (orders (step s a) ! i)))"
proof -
  from run_orders_nth [OF assms, of acts]
  have 1: "i < length (orders (run s acts))"
    and 2: "orders (run s acts) ! i = (orders s ! i)\<lparr>status := status (orders (run s acts) ! i)\<rparr>"
    by simp_all
  have 3: "order_id (orders (run s acts) ! i) = order_id (orders s ! i)"
    by (subst 2) simp
  have 4: "items (orders (run s acts) ! i) = items (orders s ! i)"
    by (subst 2) simp
  have 5: "total_amount (orders (run s acts) ! i) = total_amount (orders s ! i)"
    by (subst 2) simp
  from 1 2 3 4 5 step_status_change [OF assms] show ?thesis by blast
qed

theorem order_frozen_after_creation_witness:
  "0 < length (orders (run initialize_data
        [AddToCart ''Coffee'' 2, PlaceOrder ''2024-01-01 12:00:00'' ''no sugar'' ''12:30:00'']))
   \<and> total_amount (orders (run (run initialize_data
        [AddToCart ''Coffee'' 2, PlaceOrder ''2024-01-01 12:00:00'' ''no sugar'' ''12:30:00''])
        [AddToCart ''Tea'' 1, UpdateStatus 1 Ready, EditQuantity 0 7,
         PlaceOrder ''2024-01-01 12:10:00'' [] ''12:40:00'', UpdateStatus 1 Completed]) ! 0) = 100
   \<and> map quantity (items (orders (run (run initialize_data
        [AddToCart ''Coffee'' 2, PlaceOrder ''2024-01-01 12:00:00'' ''no sugar'' ''12:30:00''])
        [AddToCart ''Tea'' 1, UpdateStatus 1 Ready, EditQuantity 0 7,
         PlaceOrder ''2024-01-01 12:10:00'' [] ''12:40:00'', UpdateStatus 1 Completed]) ! 0)) = [2]
   \<and> status (orders (step (run initialize_data
        [AddToCart ''Coffee'' 2, PlaceOrder ''2024-01-01 12:00:00'' ''no sugar'' ''12:30:00''])
        (UpdateStatus 1 Ready)) ! 0) \<noteq>
      status (orders (run initialize_data
        [AddToCart ''Coffee'' 2, PlaceOrder ''2024-01-01 12:00:00'' ''no sugar'' ''12:30:00'']) ! 0)"
proof -
  let ?s = "run initialize_data
        [AddToCart ''Coffee'' 2, PlaceOrder ''2024-01-01 12:00:00'' ''no sugar'' ''12:30:00'']"
  let ?acts = "[AddToCart ''Tea'' 1, UpdateStatus 1 Ready, EditQuantity 0 7,
         PlaceOrder ''2024-01-01 12:10:00'' [] ''12:40:00'', UpdateStatus 1 Completed]"
  have l: "0 < length (orders ?s)"
    by (simp add: session_eval)
  have o: "total_amount (orders ?s ! 0) = 100" "map quantity (items (orders ?s ! 0)) = [2]"
    by (simp_all add: session_eval final_amount_def calculate_total_savings_def column_sum_def)
  have c: "status (orders (step ?s (UpdateStatus 1 Ready)) ! 0) \<noteq> status (orders ?s ! 0)"
    by (simp add: session_eval)
  from order_frozen_after_creation [OF l, of ?acts "UpdateStatus 1 Ready"] o
  have "total_amount (orders (run ?s ?acts) ! 0) = 100"
    "map quantity (items (orders (run ?s ?acts) ! 0)) = [2]"
    by simp_all
  with l c show ?thesis by blast
qed

end
